theory Spec2Isabelle
  imports Main "HOL-Library.Multiset"
begin

section \<open>The bracket template (lib/teams-config.ts)\<close>

text \<open>
  \<^verbatim>\<open>winnerPosition: "team1" | "team2" | null\<close> is an optional \<open>Position\<close>;
  \<^verbatim>\<open>team1: TeamKey | null\<close> and \<^verbatim>\<open>nextMatchup: BracketKey | null\<close> are optional
  strings (the TypeScript key types are erased at run time, so the values are strings).
\<close>

datatype Position = Team1 | Team2

record MatchupData =
  round_num :: nat
  matchupId :: string
  team1 :: "string option"
  team2 :: "string option"
  nextMatchup :: "string option"
  winnerPosition :: "Position option"

text \<open>
  \<^verbatim>\<open>BracketStructure = Record<BracketKey, MatchupData>\<close>: a JavaScript object, that is
  a list of (key, value) properties in insertion order whose keys are pairwise distinct.
  Property lookup \<^verbatim>\<open>b[k]\<close> is \<open>map_of b k\<close>.
\<close>

type_synonym BracketStructure = "(string \<times> MatchupData) list"

definition initialBracket :: BracketStructure where
  "initialBracket =
   [(''E1'', \<lparr>round_num = 1, matchupId = ''E1'', team1 = Some ''BOS'', team2 = Some ''MIA'',
             nextMatchup = Some ''E5'', winnerPosition = Some Team1\<rparr>),
    (''E2'', \<lparr>round_num = 1, matchupId = ''E2'', team1 = Some ''CLE'', team2 = Some ''ORL'',
             nextMatchup = Some ''E5'', winnerPosition = Some Team2\<rparr>),
    (''E3'', \<lparr>round_num = 1, matchupId = ''E3'', team1 = Some ''MIL'', team2 = Some ''IND'',
             nextMatchup = Some ''E6'', winnerPosition = Some Team1\<rparr>),
    (''E4'', \<lparr>round_num = 1, matchupId = ''E4'', team1 = Some ''NYK'', team2 = Some ''PHI'',
             nextMatchup = Some ''E6'', winnerPosition = Some Team2\<rparr>),
    (''W1'', \<lparr>round_num = 1, matchupId = ''W1'', team1 = Some ''OKC'', team2 = Some ''NOP'',
             nextMatchup = Some ''W5'', winnerPosition = Some Team1\<rparr>),
    (''W2'', \<lparr>round_num = 1, matchupId = ''W2'', team1 = Some ''LAC'', team2 = Some ''DAL'',
             nextMatchup = Some ''W5'', winnerPosition = Some Team2\<rparr>),
    (''W3'', \<lparr>round_num = 1, matchupId = ''W3'', team1 = Some ''MIN'', team2 = Some ''PHX'',
             nextMatchup = Some ''W6'', winnerPosition = Some Team1\<rparr>),
    (''W4'', \<lparr>round_num = 1, matchupId = ''W4'', team1 = Some ''DEN'', team2 = Some ''LAL'',
             nextMatchup = Some ''W6'', winnerPosition = Some Team2\<rparr>),
    (''E5'', \<lparr>round_num = 2, matchupId = ''E5'', team1 = None, team2 = None,
             nextMatchup = Some ''E7'', winnerPosition = Some Team1\<rparr>),
    (''E6'', \<lparr>round_num = 2, matchupId = ''E6'', team1 = None, team2 = None,
             nextMatchup = Some ''E7'', winnerPosition = Some Team2\<rparr>),
    (''W5'', \<lparr>round_num = 2, matchupId = ''W5'', team1 = None, team2 = None,
             nextMatchup = Some ''W7'', winnerPosition = Some Team1\<rparr>),
    (''W6'', \<lparr>round_num = 2, matchupId = ''W6'', team1 = None, team2 = None,
             nextMatchup = Some ''W7'', winnerPosition = Some Team2\<rparr>),
    (''E7'', \<lparr>round_num = 3, matchupId = ''E7'', team1 = None, team2 = None,
             nextMatchup = Some ''F1'', winnerPosition = Some Team1\<rparr>),
    (''W7'', \<lparr>round_num = 3, matchupId = ''W7'', team1 = None, team2 = None,
             nextMatchup = Some ''F1'', winnerPosition = Some Team2\<rparr>),
    (''F1'', \<lparr>round_num = 4, matchupId = ''F1'', team1 = None, team2 = None,
             nextMatchup = None, winnerPosition = None\<rparr>)]"

text \<open>
  The object spread \<^verbatim>\<open>{ ...a, ...b }\<close>: the properties of \<open>a\<close> in their order, each
  value replaced by the one \<open>b\<close> has under the same key, followed by the properties of
  \<open>b\<close> whose key \<open>a\<close> lacks.
\<close>

definition spread :: "('k \<times> 'v) list \<Rightarrow> ('k \<times> 'v) list \<Rightarrow> ('k \<times> 'v) list" where
  "spread a b =
     map (\<lambda>(k, v). (k, case map_of b k of None \<Rightarrow> v | Some v' \<Rightarrow> v')) a
     @ filter (\<lambda>(k, v). map_of a k = None) b"

text \<open>
  \<^verbatim>\<open>updateBracketStructure(currentBracket, newBracketData)\<close> returns the spread of its
  arguments. Its body has no check and no \<^verbatim>\<open>throw\<close>.
\<close>

definition updateBracketStructure :: "BracketStructure \<Rightarrow> BracketStructure \<Rightarrow> BracketStructure" where
  "updateBracketStructure currentBracket newBracketData = spread currentBracket newBracketData"

text \<open>
  How a call ends: it returns a value or throws. Building a template (the object literal, or
  a call of \<open>updateBracketStructure\<close>) has no throwing path in the source, so the outcome
  of the construction is always a returned bracket.
\<close>

datatype error = MalformedTemplateError

definition construct_template :: "BracketStructure \<Rightarrow> BracketStructure \<Rightarrow> error + BracketStructure" where
  "construct_template currentBracket newBracketData =
     Inr (updateBracketStructure currentBracket newBracketData)"

section \<open>The derivation (components/playoff-bracket.tsx, the effect of PlayoffBracket)\<close>

text \<open>
  \<^verbatim>\<open>predictions: Partial<Record<BracketKey, string>>\<close>, read through
  \<^verbatim>\<open>Object.entries\<close>: the list of its (key, value) properties, keys pairwise distinct.
  A value is a string; \<open>None\<close> stands for \<^verbatim>\<open>null\<close> or \<^verbatim>\<open>undefined\<close>, which the
  source expects (\<^verbatim>\<open>winningTeamId can be null if prediction is cleared\<close>).
\<close>

type_synonym Predictions = "(string \<times> string option) list"

text \<open>JavaScript truthiness of a string-or-null value: neither null nor the empty string.\<close>

definition truthy :: "string option \<Rightarrow> bool" where
  "truthy v = (case v of None \<Rightarrow> False | Some s \<Rightarrow> s \<noteq> [])"

text \<open>
  The assignment \<^verbatim>\<open>nextMatchup.team1 = winningTeamId\<close> mutates the matchup object stored
  under one key of \<^verbatim>\<open>newBracket\<close>; \<open>update_matchup\<close> rewrites the value under that key.
\<close>

definition update_matchup ::
  "string \<Rightarrow> (MatchupData \<Rightarrow> MatchupData) \<Rightarrow> BracketStructure \<Rightarrow> BracketStructure" where
  "update_matchup n f newBracket = map (\<lambda>(k, m). if k = n then (k, f m) else (k, m)) newBracket"

text \<open>
  The body of the \<^verbatim>\<open>forEach\<close> callback, for a template \<open>T\<close> (the source reads the
  constant \<open>initialBracket\<close>). It reads the predicted matchup from the template and
  writes into the clone.
\<close>

definition forEach_body ::
  "BracketStructure \<Rightarrow> string \<times> string option \<Rightarrow> BracketStructure \<Rightarrow> BracketStructure" where
  "forEach_body T e newBracket =
     (case e of (matchupIdStr, winningTeamId) \<Rightarrow>
        (case map_of T matchupIdStr of
           None \<Rightarrow> newBracket
         | Some originalMatchup \<Rightarrow>
             if \<not> truthy winningTeamId then newBracket
             else if truthy (nextMatchup originalMatchup) then
               (case nextMatchup originalMatchup of
                  None \<Rightarrow> newBracket
                | Some nextMatchupId \<Rightarrow>
                    (case map_of newBracket nextMatchupId of
                       None \<Rightarrow> newBracket
                     | Some nextM \<Rightarrow>
                         (case winnerPosition originalMatchup of
                            Some Team1 \<Rightarrow>
                              update_matchup nextMatchupId (\<lambda>m. m\<lparr>team1 := winningTeamId\<rparr>) newBracket
                          | Some Team2 \<Rightarrow>
                              update_matchup nextMatchupId (\<lambda>m. m\<lparr>team2 := winningTeamId\<rparr>) newBracket
                          | None \<Rightarrow> newBracket)))
             else newBracket))"

text \<open>
  The effect: clone the template (\<^verbatim>\<open>JSON.parse(JSON.stringify(...))\<close> is the identity on
  a bracket, whose fields are numbers, strings and null), then run the callback over the
  entries in order.
\<close>

definition derive :: "BracketStructure \<Rightarrow> Predictions \<Rightarrow> BracketStructure" where
  "derive T predictions = fold (forEach_body T) predictions T"

text \<open>
  The component keeps the bracket in a state cell; the effect overwrites it
  (\<^verbatim>\<open>setBracket(newBracket)\<close>) with the bracket derived from \<open>initialBracket\<close>.
\<close>

definition PlayoffBracket_effect :: "Predictions \<Rightarrow> BracketStructure \<Rightarrow> BracketStructure" where
  "PlayoffBracket_effect predictions bracket = derive initialBracket predictions"

text \<open>
  \<^verbatim>\<open>saveUserPredictions\<close>: \<^verbatim>\<open>champion = userPredictions.F1 || null\<close>, and the component's
  \<^verbatim>\<open>hasChampion = !!predictions["F1"]\<close>.
\<close>

definition champion :: "Predictions \<Rightarrow> string option" where
  "champion userPredictions =
     (case map_of userPredictions ''F1'' of
        None \<Rightarrow> None
      | Some v \<Rightarrow> if truthy v then v else None)"

definition hasChampion :: "Predictions \<Rightarrow> bool" where
  "hasChampion predictions =
     (case map_of predictions ''F1'' of None \<Rightarrow> False | Some v \<Rightarrow> truthy v)"

section \<open>Auxiliary notions for the proofs\<close>

text \<open>The slot of a matchup that a \<open>winnerPosition\<close> names, read and written.\<close>

definition slot_of :: "Position \<Rightarrow> MatchupData \<Rightarrow> string option" where
  "slot_of p m = (case p of Team1 \<Rightarrow> team1 m | Team2 \<Rightarrow> team2 m)"

definition set_slot :: "Position \<Rightarrow> string option \<Rightarrow> MatchupData \<Rightarrow> MatchupData" where
  "set_slot p v m = (case p of Team1 \<Rightarrow> m\<lparr>team1 := v\<rparr> | Team2 \<Rightarrow> m\<lparr>team2 := v\<rparr>)"

text \<open>
  The outgoing edge of a template matchup, as the callback reads it: a truthy
  \<open>nextMatchup\<close> together with a \<open>winnerPosition\<close> that is team1 or team2.
\<close>

definition edge :: "MatchupData \<Rightarrow> (string \<times> Position) option" where
  "edge m = (case nextMatchup m of
               None \<Rightarrow> None
             | Some n \<Rightarrow> if n = [] then None
                         else (case winnerPosition m of None \<Rightarrow> None | Some p \<Rightarrow> Some (n, p)))"

text \<open>The (matchup, slot) pair one prediction entry is written to, if any.\<close>

definition entry_target ::
  "BracketStructure \<Rightarrow> string \<times> string option \<Rightarrow> (string \<times> Position) option" where
  "entry_target T e = (case map_of T (fst e) of
                         None \<Rightarrow> None
                       | Some om \<Rightarrow> if truthy (snd e) then edge om else None)"

text \<open>No two matchups of a template have the same outgoing edge.\<close>

definition unique_targets :: "BracketStructure \<Rightarrow> bool" where
  "unique_targets T = distinct (List.map_filter (\<lambda>(k, m). edge m) T)"

text \<open>
  The values written to slot \<open>p\<close> of matchup \<open>n\<close> while the entries \<open>P\<close> are
  processed, in order; the slot ends with the last of them, or keeps what it had.
\<close>

definition writes ::
  "BracketStructure \<Rightarrow> Predictions \<Rightarrow> string \<Rightarrow> Position \<Rightarrow> string option list" where
  "writes T P n p = map snd (filter (\<lambda>e. entry_target T e = Some (n, p)) P)"

definition final :: "string option list \<Rightarrow> string option \<Rightarrow> string option" where
  "final ws orig = (if ws = [] then orig else last ws)"

definition resolve ::
  "BracketStructure \<Rightarrow> Predictions \<Rightarrow> string \<times> MatchupData \<Rightarrow> string \<times> MatchupData" where
  "resolve T P km = (case km of (k, m) \<Rightarrow>
      (k, m\<lparr>team1 := final (writes T P k Team1) (team1 m),
             team2 := final (writes T P k Team2) (team2 m)\<rparr>))"

text \<open>
  A partial bracket for \<open>updateBracketStructure\<close> that rewires E2 to the slot E1 already
  feeds (team1 of E5).
\<close>

definition duplicateTargetPatch :: BracketStructure where
  "duplicateTargetPatch =
     [(''E2'', \<lparr>round_num = 1, matchupId = ''E2'', team1 = Some ''CLE'', team2 = Some ''ORL'',
               nextMatchup = Some ''E5'', winnerPosition = Some Team1\<rparr>)]"

section \<open>The derivation in closed form\<close>

lemma update_matchup_absent:
  "map_of nb n = None \<Longrightarrow> update_matchup n f nb = nb"
  unfolding update_matchup_def
  by (induction nb) (auto split: if_splits)

lemma forEach_body_target:
  "forEach_body T e nb =
     (case entry_target T e of
        None \<Rightarrow> nb
      | Some (n, p) \<Rightarrow> update_matchup n (set_slot p (snd e)) nb)"
proof (cases e)
  case (Pair k v)
  show ?thesis
  proof (cases "map_of T k")
    case None
    then show ?thesis by (simp add: Pair forEach_body_def entry_target_def)
  next
    case (Some om)
    show ?thesis
    proof (cases "entry_target T e")
      case None
      then show ?thesis using Some Pair
        by (auto simp: forEach_body_def entry_target_def edge_def truthy_def
                 split: option.splits if_splits Position.splits)
    next
      case (Some np)
      obtain n p where np: "np = (n, p)" by (cases np)
      have upd: "update_matchup n (set_slot p v) nb = nb" if "map_of nb n = None"
        using that by (rule update_matchup_absent)
      have fns: "set_slot Team1 v = (\<lambda>m. m\<lparr>team1 := v\<rparr>)" "set_slot Team2 v = (\<lambda>m. m\<lparr>team2 := v\<rparr>)"
        by (simp_all add: set_slot_def fun_eq_iff)
      show ?thesis using Some np \<open>map_of T k = Some om\<close> Pair upd fns
        by (auto simp: forEach_body_def entry_target_def edge_def truthy_def
                 split: option.splits if_splits Position.splits)
    qed
  qed
qed

lemma final_Nil: "final [] orig = orig"
  by (simp add: final_def)

lemma final_Cons: "final (w # ws) orig = final ws w"
  by (simp add: final_def)

lemma writes_Nil: "writes T [] n p = []"
  by (simp add: writes_def)

lemma writes_Cons:
  "writes T (e # es) n p =
     (if entry_target T e = Some (n, p) then snd e # writes T es n p else writes T es n p)"
  by (simp add: writes_def)

lemma resolve_Nil: "resolve T [] km = km"
  by (cases km) (simp add: resolve_def writes_Nil final_Nil)

lemma resolve_step:
  "resolve T es (case entry_target T e of None \<Rightarrow> km
       | Some (n, p) \<Rightarrow> (case km of (k, m) \<Rightarrow> if k = n then (k, set_slot p (snd e) m) else (k, m)))
   = resolve T (e # es) km"
proof (cases km)
  case (Pair k m)
  show ?thesis
  proof (cases "entry_target T e")
    case None
    then show ?thesis by (simp add: Pair resolve_def writes_Cons)
  next
    case (Some np)
    obtain n p where np: "np = (n, p)" by (cases np)
    show ?thesis using Some np Pair
      by (cases p) (auto simp: resolve_def writes_Cons final_Cons final_def set_slot_def)
  qed
qed

lemma fold_forEach_closed:
  "fold (forEach_body T) P nb = map (resolve T P) nb"
proof (induction P arbitrary: nb)
  case Nil
  show ?case by (simp add: resolve_Nil map_idI)
next
  case (Cons e es)
  have "forEach_body T e nb =
        map (\<lambda>km. case entry_target T e of None \<Rightarrow> km
              | Some (n, p) \<Rightarrow> (case km of (k, m) \<Rightarrow> if k = n then (k, set_slot p (snd e) m) else (k, m))) nb"
    by (auto simp: forEach_body_target update_matchup_def split: option.splits)
  then show ?case using Cons.IH
    by (simp add: resolve_step cong: map_cong)
qed

lemma derive_closed: "derive T P = map (resolve T P) T"
  by (simp add: derive_def fold_forEach_closed)

lemma fst_resolve: "fst (resolve T P km) = fst km"
  by (cases km) (simp add: resolve_def)

lemma derive_keys: "map fst (derive T P) = map fst T"
  by (simp add: derive_closed fst_resolve cong: map_cong)

lemma map_of_map_resolve:
  "map_of (map (resolve T P) nb) k = map_option (\<lambda>m. snd (resolve T P (k, m))) (map_of nb k)"
  by (induction nb) (auto simp: resolve_def)

lemma map_of_derive:
  "map_of (derive T P) k = map_option (\<lambda>m. snd (resolve T P (k, m))) (map_of T k)"
  by (simp add: derive_closed map_of_map_resolve)

lemma slot_of_resolve:
  "slot_of p (snd (resolve T P (k, m))) = final (writes T P k p) (slot_of p m)"
  by (cases p) (simp_all add: resolve_def slot_of_def)

lemma resolve_fields:
  "round_num (snd (resolve T P (k, m))) = round_num m"
  "matchupId (snd (resolve T P (k, m))) = matchupId m"
  "nextMatchup (snd (resolve T P (k, m))) = nextMatchup m"
  "winnerPosition (snd (resolve T P (k, m))) = winnerPosition m"
  by (simp_all add: resolve_def)

lemma resolve_no_writes:
  "writes T P k Team1 = [] \<Longrightarrow> writes T P k Team2 = [] \<Longrightarrow> snd (resolve T P (k, m)) = m"
  by (simp add: resolve_def final_def)

text \<open>An entry that writes nowhere can be dropped.\<close>

lemma forEach_body_noop:
  "entry_target T e = None \<Longrightarrow> forEach_body T e nb = nb"
  by (simp add: forEach_body_target)

lemma derive_drop_noop:
  "entry_target T e = None \<Longrightarrow> derive T (P1 @ e # P2) = derive T (P1 @ P2)"
  by (simp add: derive_def forEach_body_noop)

lemma entry_target_unknown: "map_of T M = None \<Longrightarrow> entry_target T (M, v) = None"
  by (simp add: entry_target_def)

lemma entry_target_falsy: "\<not> truthy v \<Longrightarrow> entry_target T (M, v) = None"
  by (simp add: entry_target_def split: option.splits)

lemma entry_target_root:
  "map_of T M = Some m \<Longrightarrow> nextMatchup m = None \<Longrightarrow> entry_target T (M, v) = None"
  by (simp add: entry_target_def edge_def)

text \<open>Who writes a slot.\<close>

lemma writes_empty_iff:
  "writes T P n p = [] \<longleftrightarrow> (\<forall>e \<in> set P. entry_target T e \<noteq> Some (n, p))"
  by (auto simp: writes_def filter_empty_conv)

lemma entry_target_SomeD:
  "entry_target T e = Some (n, p) \<Longrightarrow>
     \<exists>om. map_of T (fst e) = Some om \<and> edge om = Some (n, p) \<and> truthy (snd e)"
  by (auto simp: entry_target_def split: option.splits if_splits)

lemma edge_SomeD:
  "edge m = Some (n, p) \<Longrightarrow> nextMatchup m = Some n \<and> winnerPosition m = Some p \<and> n \<noteq> []"
  by (auto simp: edge_def split: option.splits if_splits)

lemma map_filter_mem:
  "x \<in> set xs \<Longrightarrow> g x = Some t \<Longrightarrow> t \<in> set (List.map_filter g xs)"
  by (induction xs) (auto split: option.splits)

lemma distinct_map_filter_inj:
  "distinct (List.map_filter g xs) \<Longrightarrow> x \<in> set xs \<Longrightarrow> y \<in> set xs \<Longrightarrow>
   g x = Some t \<Longrightarrow> g y = Some t \<Longrightarrow> x = y"
proof (induction xs)
  case Nil
  then show ?case by simp
next
  case (Cons a xs)
  show ?case
  proof (cases "g a")
    case None
    with Cons show ?thesis by auto
  next
    case (Some u)
    with Cons show ?thesis
      by (auto dest: map_filter_mem)
  qed
qed

lemma unique_targets_feeder:
  assumes "unique_targets T"
      and "map_of T k1 = Some m1" and "map_of T k2 = Some m2"
      and "edge m1 = Some t" and "edge m2 = Some t"
  shows "k1 = k2"
proof -
  have d: "distinct (List.map_filter (\<lambda>(k, m). edge m) T)"
    using assms(1) by (simp add: unique_targets_def)
  have mem: "(k1, m1) \<in> set T" "(k2, m2) \<in> set T"
    using assms(2,3) by (auto dest: map_of_SomeD)
  have g: "(\<lambda>(k, m). edge m) (k1, m1) = Some t" "(\<lambda>(k, m). edge m) (k2, m2) = Some t"
    using assms(4,5) by simp_all
  have "(k1, m1) = (k2, m2)"
    by (rule distinct_map_filter_inj [OF d mem g])
  then show ?thesis by simp
qed

lemma entry_target_iff:
  assumes "unique_targets T" and "map_of T M = Some m" and "edge m = Some (n, p)"
  shows "entry_target T e = Some (n, p) \<longleftrightarrow> fst e = M \<and> truthy (snd e)"
proof
  assume "entry_target T e = Some (n, p)"
  then obtain om where om: "map_of T (fst e) = Some om" "edge om = Some (n, p)" "truthy (snd e)"
    by (auto dest: entry_target_SomeD)
  have "fst e = M"
    by (rule unique_targets_feeder [OF assms(1) om(1) assms(2) om(2) assms(3)])
  with om(3) show "fst e = M \<and> truthy (snd e)" by simp
next
  assume "fst e = M \<and> truthy (snd e)"
  then show "entry_target T e = Some (n, p)"
    using assms(2,3) by (simp add: entry_target_def)
qed

lemma distinct_filter_key:
  "distinct (map fst P) \<Longrightarrow>
   map snd (filter (\<lambda>e. fst e = M \<and> Q (snd e)) P) =
     (case map_of P M of None \<Rightarrow> [] | Some v \<Rightarrow> if Q v then [v] else [])"
proof (induction P)
  case Nil
  show ?case by simp
next
  case (Cons e es)
  obtain k v where e: "e = (k, v)" by (cases e)
  show ?case
  proof (cases "k = M")
    case True
    then have "M \<notin> fst ` set es" using Cons.prems e by auto
    then have "filter (\<lambda>e. fst e = M \<and> Q (snd e)) es = []"
      by (auto simp: filter_empty_conv)
    then show ?thesis using True e by simp
  next
    case False
    then show ?thesis using Cons e by simp
  qed
qed

lemma writes_feeder:
  assumes "unique_targets T" and "distinct (map fst P)"
      and "map_of T M = Some m" and "edge m = Some (n, p)"
  shows "writes T P n p = (case map_of P M of None \<Rightarrow> [] | Some v \<Rightarrow> if truthy v then [v] else [])"
proof -
  have "writes T P n p = map snd (filter (\<lambda>e. fst e = M \<and> truthy (snd e)) P)"
    by (simp add: writes_def entry_target_iff [OF assms(1,3,4)])
  then show ?thesis
    by (simp add: distinct_filter_key [OF assms(2)])
qed

lemma derived_slot:
  assumes "unique_targets T" and "distinct (map fst P)"
      and "map_of T M = Some m" and "edge m = Some (n, p)"
      and "map_of T n = Some n0"
  shows "\<exists>n'. map_of (derive T P) n = Some n' \<and>
           slot_of p n' = (case map_of P M of
                             None \<Rightarrow> slot_of p n0
                           | Some v \<Rightarrow> if truthy v then v else slot_of p n0)"
  using assms(5)
  by (simp add: map_of_derive slot_of_resolve writes_feeder [OF assms(1-4)] final_def
           split: option.splits)

lemma initialBracket_distinct_keys: "distinct (map fst initialBracket)"
  by (simp add: initialBracket_def)

lemma initialBracket_unique_targets: "unique_targets initialBracket"
  by (simp add: unique_targets_def initialBracket_def edge_def)

lemma initialBracket_edges_checked:
  "list_all (\<lambda>(M, m). case nextMatchup m of
        None \<Rightarrow> True
      | Some N \<Rightarrow> (case winnerPosition m of
           None \<Rightarrow> False
         | Some p \<Rightarrow> edge m = Some (N, p) \<and>
             (case map_of initialBracket N of
                None \<Rightarrow> False
              | Some n0 \<Rightarrow> team1 n0 = None \<and> team2 n0 = None \<and>
                          round_num n0 = round_num m + 1))) initialBracket"
  by (simp add: initialBracket_def edge_def)

lemma initialBracket_edge:
  assumes "map_of initialBracket M = Some m" and "nextMatchup m = Some N"
  shows "\<exists>p n0. edge m = Some (N, p) \<and> winnerPosition m = Some p \<and>
           map_of initialBracket N = Some n0 \<and> team1 n0 = None \<and> team2 n0 = None \<and>
           round_num n0 = round_num m + 1"
proof -
  have "(M, m) \<in> set initialBracket" using assms(1) by (rule map_of_SomeD)
  with initialBracket_edges_checked
  have "case nextMatchup m of
        None \<Rightarrow> True
      | Some N \<Rightarrow> (case winnerPosition m of
           None \<Rightarrow> False
         | Some p \<Rightarrow> edge m = Some (N, p) \<and>
             (case map_of initialBracket N of
                None \<Rightarrow> False
              | Some n0 \<Rightarrow> team1 n0 = None \<and> team2 n0 = None \<and>
                          round_num n0 = round_num m + 1))"
    by (auto simp: list_all_iff)
  then show ?thesis using assms(2)
    by (auto split: option.splits)
qed

lemma initialBracket_round1_checked:
  "list_all (\<lambda>(k, m). round_num m = 1 \<longrightarrow>
      list_all (\<lambda>(M, om). nextMatchup om \<noteq> Some k) initialBracket) initialBracket"
  by (simp add: initialBracket_def)

lemma initialBracket_round1_not_target:
  assumes "map_of initialBracket k = Some m" and "round_num m = 1"
      and "map_of initialBracket M = Some om"
  shows "nextMatchup om \<noteq> Some k"
proof -
  have "(k, m) \<in> set initialBracket" "(M, om) \<in> set initialBracket"
    using assms(1,3) by (auto dest: map_of_SomeD)
  with initialBracket_round1_checked assms(2) show ?thesis
    by (fastforce simp: list_all_iff)
qed

lemma final_idem: "final ws (final ws orig) = final ws orig"
  by (simp add: final_def)

lemma resolve_idem: "resolve T P (resolve T P km) = resolve T P km"
  by (cases km) (simp add: resolve_def final_idem)

lemma reapply_entries: "fold (forEach_body T) P (derive T P) = derive T P"
  by (simp add: fold_forEach_closed derive_closed resolve_idem)

lemma writes_perm:
  assumes "unique_targets T" and "distinct (map fst P)" and "mset P' = mset P"
  shows "writes T P' n p = writes T P n p"
proof (cases "\<exists>M m. map_of T M = Some m \<and> edge m = Some (n, p)")
  case True
  then obtain M m where f: "map_of T M = Some m" "edge m = Some (n, p)" by blast
  have "mset (map fst P') = mset (map fst P)" using assms(3) by simp
  from mset_eq_imp_distinct_iff [OF this] have d': "distinct (map fst P')"
    using assms(2) by blast
  have "set P' = set P" using assms(3) by (rule mset_eq_setD)
  then have "map_of P' = map_of P"
    using map_of_inject_set [OF d' assms(2)] by simp
  then show ?thesis
    by (simp add: writes_feeder [OF assms(1) d' f] writes_feeder [OF assms(1,2) f])
next
  case False
  then have "entry_target T e \<noteq> Some (n, p)" for e
    by (auto dest: entry_target_SomeD)
  then have "writes T P' n p = []" "writes T P n p = []"
    by (simp_all add: writes_empty_iff)
  then show ?thesis by simp
qed

lemma derive_perm:
  assumes "unique_targets T" and "distinct (map fst P)" and "mset P' = mset P"
  shows "derive T P' = derive T P"
proof -
  have "resolve T P' km = resolve T P km" for km
    by (cases km) (simp add: resolve_def writes_perm [OF assms])
  then show ?thesis by (simp add: derive_closed)
qed

lemma map_of_spread:
  "map_of (spread a b) k = (case map_of b k of None \<Rightarrow> map_of a k | Some v \<Rightarrow> Some v)"
proof -
  have 1: "map_of (map (\<lambda>(k, v). (k, case map_of b k of None \<Rightarrow> v | Some v' \<Rightarrow> v')) a) k =
           map_option (\<lambda>v. case map_of b k of None \<Rightarrow> v | Some v' \<Rightarrow> v') (map_of a k)"
    by (induction a) (auto split: option.splits)
  have 2: "map_of (filter (\<lambda>(k, v). map_of a k = None) b) k =
           (if map_of a k = None then map_of b k else None)"
    by (induction b) auto
  show ?thesis
    by (auto simp: spread_def map_add_def 1 2 split: option.splits)
qed

lemma initialBracket_targets_checked:
  "list_all (\<lambda>(k, m). (2 \<le> round_num m) =
      list_ex (\<lambda>(M, om). nextMatchup om = Some k) initialBracket) initialBracket"
  by (simp add: initialBracket_def)

lemma initialBracket_target_iff:
  assumes "map_of initialBracket k = Some m"
  shows "(\<exists>k0 m0. map_of initialBracket k0 = Some m0 \<and> nextMatchup m0 = Some k) \<longleftrightarrow> 2 \<le> round_num m"
proof -
  have "(k, m) \<in> set initialBracket" using assms by (rule map_of_SomeD)
  with initialBracket_targets_checked
  have "(2 \<le> round_num m) = list_ex (\<lambda>(M, om). nextMatchup om = Some k) initialBracket"
    by (auto simp: list_all_iff)
  also have "\<dots> = (\<exists>(k0, m0) \<in> set initialBracket. nextMatchup m0 = Some k)"
    by (simp add: list_ex_iff)
  also have "\<dots> = (\<exists>k0 m0. map_of initialBracket k0 = Some m0 \<and> nextMatchup m0 = Some k)"
    using initialBracket_distinct_keys by (auto dest: map_of_SomeD)
  finally show ?thesis by simp
qed

section \<open>The claims\<close>

text \<open>
  Throughout, a prediction set is the entry list of a JavaScript object, so its keys are
  pairwise distinct (\<open>distinct (map fst P)\<close>); a statement that holds for every entry
  list does not assume it. A winner is an entrant reference (a team key), hence a non-empty
  string: the callback calls a falsy value \<^verbatim>\<open>no winner selected\<close> and skips the entry,
  which is the subject of C10.
\<close>

text \<open>
  \<^bold>\<open>C1\<close> (one-hop propagation). Let matchup \<open>M\<close> of the template feed slot \<open>pos\<close> of
  matchup \<open>N\<close>. In the bracket derived from any prediction set \<open>P\<close>, matchup \<open>N\<close>
  exists; if \<open>P\<close> has the entry \<open>(M, winner)\<close> then slot \<open>pos\<close> of \<open>N\<close> is
  \<open>winner\<close>, whatever \<open>P\<close> holds for \<open>N\<close>; and if \<open>P\<close> has no pick for \<open>M\<close>
  the slot is empty, whatever \<open>P\<close> holds for the matchups that feed \<open>M\<close>: nothing is
  chained through a matchup without an entry of its own.
\<close>

theorem one_hop_propagation:
  assumes "distinct (map fst P)"
      and "map_of initialBracket M = Some m"
      and "nextMatchup m = Some N" and "winnerPosition m = Some pos"
  shows "\<exists>n. map_of (derive initialBracket P) N = Some n \<and>
            (\<forall>w. (M, Some w) \<in> set P \<and> w \<noteq> [] \<longrightarrow> slot_of pos n = Some w) \<and>
            ((\<forall>v. (M, v) \<in> set P \<longrightarrow> \<not> truthy v) \<longrightarrow> slot_of pos n = None)"
proof -
  from initialBracket_edge [OF assms(2,3)] assms(4)
  obtain n0 where e: "edge m = Some (N, pos)" and n0: "map_of initialBracket N = Some n0"
    and empty: "team1 n0 = None" "team2 n0 = None"
    by auto
  have s0: "slot_of pos n0 = None"
    using empty by (cases pos) (simp_all add: slot_of_def)
  from derived_slot [OF initialBracket_unique_targets assms(1,2) e n0]
  obtain n where n: "map_of (derive initialBracket P) N = Some n"
    and s: "slot_of pos n = (case map_of P M of None \<Rightarrow> slot_of pos n0
                              | Some v \<Rightarrow> if truthy v then v else slot_of pos n0)"
    by blast
  have hit: "slot_of pos n = Some w" if "(M, Some w) \<in> set P" "w \<noteq> []" for w
  proof -
    have "map_of P M = Some (Some w)"
      using assms(1) that(1) by (rule map_of_is_SomeI)
    then show ?thesis using s that(2) by (simp add: truthy_def)
  qed
  have miss: "slot_of pos n = None" if "\<forall>v. (M, v) \<in> set P \<longrightarrow> \<not> truthy v"
  proof (cases "map_of P M")
    case None
    then show ?thesis using s s0 by simp
  next
    case (Some v)
    then have "(M, v) \<in> set P" by (rule map_of_SomeD)
    then have "\<not> truthy v" using that by blast
    then show ?thesis using s s0 Some by simp
  qed
  show ?thesis using n hit miss by blast
qed

theorem one_hop_propagation_witness:
  "distinct (map fst [(''E1'', Some ''MIA''), (''E2'', Some ''CLE'')]) \<and>
   map_of initialBracket ''E1'' = Some
      \<lparr>round_num = 1, matchupId = ''E1'', team1 = Some ''BOS'', team2 = Some ''MIA'',
       nextMatchup = Some ''E5'', winnerPosition = Some Team1\<rparr> \<and>
   map_of initialBracket ''E5'' = Some
      \<lparr>round_num = 2, matchupId = ''E5'', team1 = None, team2 = None,
       nextMatchup = Some ''E7'', winnerPosition = Some Team1\<rparr> \<and>
   map_option (slot_of Team1)
     (map_of (derive initialBracket [(''E1'', Some ''MIA''), (''E2'', Some ''CLE'')]) ''E5'')
     = Some (Some ''MIA'') \<and>
   map_option (slot_of Team1)
     (map_of (derive initialBracket [(''E1'', Some ''MIA''), (''E2'', Some ''CLE'')]) ''E7'')
     = Some None"
proof -
  let ?P = "[(''E1'', Some ''MIA''), (''E2'', Some ''CLE'')]"
  let ?e1 = "\<lparr>round_num = 1, matchupId = ''E1'', team1 = Some ''BOS'', team2 = Some ''MIA'',
       nextMatchup = Some ''E5'', winnerPosition = Some Team1\<rparr>"
  let ?e5 = "\<lparr>round_num = 2, matchupId = ''E5'', team1 = None, team2 = None,
       nextMatchup = Some ''E7'', winnerPosition = Some Team1\<rparr>"
  have d: "distinct (map fst ?P)" by simp
  have l1: "map_of initialBracket ''E1'' = Some ?e1" by (simp add: initialBracket_def)
  have l5: "map_of initialBracket ''E5'' = Some ?e5" by (simp add: initialBracket_def)
  have n1: "nextMatchup ?e1 = Some ''E5''" and p1: "winnerPosition ?e1 = Some Team1" by simp_all
  have n5: "nextMatchup ?e5 = Some ''E7''" and p5: "winnerPosition ?e5 = Some Team1" by simp_all
  have a: "map_option (slot_of Team1) (map_of (derive initialBracket ?P) ''E5'') = Some (Some ''MIA'')"
    using one_hop_propagation [OF d l1 n1 p1] by auto
  have b: "map_option (slot_of Team1) (map_of (derive initialBracket ?P) ''E7'') = Some None"
    using one_hop_propagation [OF d l5 n5 p5] by (auto simp: truthy_def)
  show ?thesis using d l1 l5 a b by simp
qed

text \<open>
  \<^bold>\<open>C2\<close> (order independence and idempotence). For a prediction set \<open>P\<close> and any
  permutation \<open>P'\<close> of its entries the derived brackets are equal; running the entries of
  \<open>P\<close> again over the bracket derived from \<open>P\<close> changes nothing; and the effect of the
  component stores the bracket derived from \<open>P\<close> whatever bracket it held before, so
  running it twice gives what running it once gives.
\<close>

theorem derive_order_independent_idempotent:
  assumes "distinct (map fst P)" and "mset P' = mset P"
  shows "derive initialBracket P' = derive initialBracket P \<and>
         fold (forEach_body initialBracket) P (derive initialBracket P) = derive initialBracket P \<and>
         PlayoffBracket_effect P (PlayoffBracket_effect P b) = PlayoffBracket_effect P b \<and>
         PlayoffBracket_effect P b = derive initialBracket P"
  using derive_perm [OF initialBracket_unique_targets assms]
  by (simp add: reapply_entries PlayoffBracket_effect_def)

theorem derive_order_independent_idempotent_witness:
  "distinct (map fst [(''E1'', Some ''MIA''), (''E5'', Some ''MIA'')]) \<and>
   mset [(''E5'', Some ''MIA''), (''E1'', Some ''MIA'')]
     = mset [(''E1'', Some ''MIA''), (''E5'', Some ''MIA'')] \<and>
   derive initialBracket [(''E5'', Some ''MIA''), (''E1'', Some ''MIA'')]
     = derive initialBracket [(''E1'', Some ''MIA''), (''E5'', Some ''MIA'')] \<and>
   PlayoffBracket_effect [(''E1'', Some ''MIA''), (''E5'', Some ''MIA'')]
       (PlayoffBracket_effect [(''E1'', Some ''MIA''), (''E5'', Some ''MIA'')] [])
     = PlayoffBracket_effect [(''E1'', Some ''MIA''), (''E5'', Some ''MIA'')] []"
proof -
  let ?P = "[(''E1'', Some ''MIA''), (''E5'', Some ''MIA'')]"
  let ?P' = "[(''E5'', Some ''MIA''), (''E1'', Some ''MIA'')]"
  have d: "distinct (map fst ?P)" by simp
  have p: "mset ?P' = mset ?P" by simp
  show ?thesis
    using d p derive_order_independent_idempotent [OF d p, of "[]"] by blast
qed

text \<open>
  \<^bold>\<open>C3\<close>, as the source has it. The claim is that building a template which breaks an
  invariant raises \<open>MalformedTemplateError\<close>. The source validates nothing: merging
  \<open>duplicateTargetPatch\<close> into \<open>initialBracket\<close> returns a bracket in which E1 and E2
  both feed team1 of E5, and no error.
\<close>

theorem malformed_template_not_rejected:
  "construct_template initialBracket duplicateTargetPatch \<noteq> Inl MalformedTemplateError \<and>
   \<not> unique_targets (updateBracketStructure initialBracket duplicateTargetPatch) \<and>
   map_option (\<lambda>m. (nextMatchup m, winnerPosition m))
     (map_of (updateBracketStructure initialBracket duplicateTargetPatch) ''E1'')
     = Some (Some ''E5'', Some Team1) \<and>
   map_option (\<lambda>m. (nextMatchup m, winnerPosition m))
     (map_of (updateBracketStructure initialBracket duplicateTargetPatch) ''E2'')
     = Some (Some ''E5'', Some Team1)"
  by (simp add: construct_template_def updateBracketStructure_def spread_def
        initialBracket_def duplicateTargetPatch_def unique_targets_def edge_def)

text \<open>
  \<^bold>\<open>C3\<close>, amended. Building a template never raises: for all arguments
  \<open>updateBracketStructure\<close> returns the shallow merge, which holds under each key the
  matchup of the new data if it has one and the matchup of the current bracket otherwise.
\<close>

theorem template_construction_unchecked:
  "\<exists>T. construct_template currentBracket newBracketData = Inr T \<and>
       T = updateBracketStructure currentBracket newBracketData \<and>
       (\<forall>k. map_of T k = (case map_of newBracketData k of
                            None \<Rightarrow> map_of currentBracket k
                          | Some m \<Rightarrow> Some m))"
  by (simp add: construct_template_def updateBracketStructure_def map_of_spread)

theorem template_construction_unchecked_witness:
  "\<exists>T. construct_template initialBracket duplicateTargetPatch = Inr T \<and>
       map_of T ''E2'' = Some
         \<lparr>round_num = 1, matchupId = ''E2'', team1 = Some ''CLE'', team2 = Some ''ORL'',
          nextMatchup = Some ''E5'', winnerPosition = Some Team1\<rparr>"
  using template_construction_unchecked [of initialBracket duplicateTargetPatch]
  by (auto simp: duplicateTargetPatch_def)

text \<open>
  \<^bold>\<open>C4\<close> (unknown-matchup tolerance). For any template, an entry whose key the
  template lacks can be removed from a prediction set without changing the derived bracket;
  a prediction set holding only such an entry derives what the empty one derives; and the
  derivation, which has no failing path, returns a bracket with exactly the template's
  keys for every prediction set.
\<close>

theorem unknown_matchup_ignored:
  assumes "map_of T M = None"
  shows "derive T (P1 @ (M, v) # P2) = derive T (P1 @ P2) \<and>
         derive T [(M, v)] = derive T [] \<and>
         map fst (derive T P) = map fst T"
proof -
  have t: "entry_target T (M, v) = None"
    using assms by (rule entry_target_unknown)
  have "derive T (P1 @ (M, v) # P2) = derive T (P1 @ P2)"
    using t by (rule derive_drop_noop)
  moreover have "derive T ([] @ (M, v) # []) = derive T ([] @ [])"
    using t by (rule derive_drop_noop)
  ultimately show ?thesis by (simp add: derive_keys)
qed

theorem unknown_matchup_ignored_witness:
  "map_of initialBracket ''Z9'' = None \<and>
   derive initialBracket ([(''E1'', Some ''BOS'')] @ (''Z9'', Some ''BOS'') # [(''E2'', Some ''CLE'')])
     = derive initialBracket ([(''E1'', Some ''BOS'')] @ [(''E2'', Some ''CLE'')]) \<and>
   derive initialBracket [(''Z9'', Some ''BOS'')] = derive initialBracket [] \<and>
   map fst (derive initialBracket [(''Z9'', Some ''BOS'')]) = map fst initialBracket"
proof -
  have u: "map_of initialBracket ''Z9'' = None" by (simp add: initialBracket_def)
  show ?thesis
    using u unknown_matchup_ignored [OF u, of "[(''E1'', Some ''BOS'')]" "Some ''BOS''"
        "[(''E2'', Some ''CLE'')]" "[(''Z9'', Some ''BOS'')]"]
    by blast
qed

text \<open>
  \<^bold>\<open>C5\<close> (round-1 fixed seeds). Every round-1 matchup of the template is found
  unchanged in the derived bracket, for every list of prediction entries.
\<close>

theorem round1_fixed_seeds:
  assumes "map_of initialBracket k = Some m" and "round_num m = 1"
  shows "map_of (derive initialBracket P) k = Some m"
proof -
  have "writes initialBracket P k p = []" for p
  proof -
    have "entry_target initialBracket e \<noteq> Some (k, p)" for e
    proof
      assume "entry_target initialBracket e = Some (k, p)"
      then obtain om where "map_of initialBracket (fst e) = Some om" "edge om = Some (k, p)"
        by (auto dest: entry_target_SomeD)
      then show False
        using initialBracket_round1_not_target [OF assms, of "fst e" om]
        by (auto dest: edge_SomeD)
    qed
    then show ?thesis by (simp add: writes_empty_iff)
  qed
  then show ?thesis using assms(1)
    by (simp add: map_of_derive resolve_no_writes)
qed

theorem round1_fixed_seeds_witness:
  "map_of initialBracket ''E1'' = Some
      \<lparr>round_num = 1, matchupId = ''E1'', team1 = Some ''BOS'', team2 = Some ''MIA'',
       nextMatchup = Some ''E5'', winnerPosition = Some Team1\<rparr> \<and>
   map_of (derive initialBracket [(''E1'', Some ''MIA''), (''E5'', Some ''NYK''), (''F1'', Some ''OKC'')]) ''E1''
     = Some
      \<lparr>round_num = 1, matchupId = ''E1'', team1 = Some ''BOS'', team2 = Some ''MIA'',
       nextMatchup = Some ''E5'', winnerPosition = Some Team1\<rparr>"
proof -
  let ?e1 = "\<lparr>round_num = 1, matchupId = ''E1'', team1 = Some ''BOS'', team2 = Some ''MIA'',
       nextMatchup = Some ''E5'', winnerPosition = Some Team1\<rparr>"
  have l: "map_of initialBracket ''E1'' = Some ?e1" by (simp add: initialBracket_def)
  have r: "round_num ?e1 = 1" by simp
  show ?thesis
    using l round1_fixed_seeds [OF l r,
        of "[(''E1'', Some ''MIA''), (''E5'', Some ''NYK''), (''F1'', Some ''OKC'')]"]
    by simp
qed

text \<open>
  \<^bold>\<open>C6\<close> (root matchup). An entry for F1 can be removed from a list of prediction
  entries without changing the derived bracket, so it writes no slot, F1's own included.
  The champion is the winner \<open>P\<close> holds for F1, and there is none when \<open>P\<close> has no entry
  for F1.
\<close>

theorem root_prediction:
  "derive initialBracket (P1 @ (''F1'', v) # P2) = derive initialBracket (P1 @ P2) \<and>
   (\<forall>w. map_of P ''F1'' = Some (Some w) \<and> w \<noteq> [] \<longrightarrow> champion P = Some w \<and> hasChampion P) \<and>
   (map_of P ''F1'' = None \<longrightarrow> champion P = None \<and> \<not> hasChampion P)"
proof -
  have "map_of initialBracket ''F1'' =
          Some \<lparr>round_num = 4, matchupId = ''F1'', team1 = None, team2 = None,
                nextMatchup = None, winnerPosition = None\<rparr>"
    by (simp add: initialBracket_def)
  then have "entry_target initialBracket (''F1'', v) = None"
    by (rule entry_target_root) simp
  then have "derive initialBracket (P1 @ (''F1'', v) # P2) = derive initialBracket (P1 @ P2)"
    by (rule derive_drop_noop)
  then show ?thesis
    by (simp add: champion_def hasChampion_def truthy_def)
qed

theorem root_prediction_witness:
  "derive initialBracket ([(''E7'', Some ''BOS'')] @ (''F1'', Some ''BOS'') # [])
     = derive initialBracket ([(''E7'', Some ''BOS'')] @ []) \<and>
   champion [(''E7'', Some ''BOS''), (''F1'', Some ''BOS'')] = Some ''BOS'' \<and>
   champion [(''E7'', Some ''BOS'')] = None"
proof -
  have a: "map_of [(''E7'', Some ''BOS''), (''F1'', Some ''BOS'')] ''F1'' = Some (Some ''BOS'')"
    by simp
  have b: "map_of [(''E7'', Some ''BOS'')] ''F1'' = None" by simp
  show ?thesis
    using a b
      root_prediction [of "[(''E7'', Some ''BOS'')]" "Some ''BOS''" "[]"
        "[(''E7'', Some ''BOS''), (''F1'', Some ''BOS'')]"]
      root_prediction [of "[]" None "[]" "[(''E7'', Some ''BOS'')]"]
    by blast
qed

text \<open>
  \<^bold>\<open>C7\<close> (topology of the fixed bracket). In \<open>initialBracket\<close> the matchups without
  a \<open>nextMatchup\<close> are exactly F1; two matchups with the same \<open>nextMatchup\<close> and the
  same \<open>winnerPosition\<close> are the same matchup; and the \<open>nextMatchup\<close> of a matchup is a
  matchup of the bracket whose round is one more.
\<close>

theorem initialBracket_topology:
  "map fst (filter (\<lambda>(k, m). nextMatchup m = None) initialBracket) = [''F1''] \<and>
   (\<forall>k1 m1 k2 m2. map_of initialBracket k1 = Some m1 \<and> map_of initialBracket k2 = Some m2 \<and>
        nextMatchup m1 \<noteq> None \<and> nextMatchup m1 = nextMatchup m2 \<and>
        winnerPosition m1 = winnerPosition m2 \<longrightarrow> k1 = k2) \<and>
   (\<forall>k m N. map_of initialBracket k = Some m \<and> nextMatchup m = Some N \<longrightarrow>
        (\<exists>n. map_of initialBracket N = Some n \<and> round_num n = round_num m + 1))"
proof -
  have root: "map fst (filter (\<lambda>(k, m). nextMatchup m = None) initialBracket) = [''F1'']"
    by (simp add: initialBracket_def)
  have uniq: "k1 = k2"
    if "map_of initialBracket k1 = Some m1" "map_of initialBracket k2 = Some m2"
       "nextMatchup m1 \<noteq> None" "nextMatchup m1 = nextMatchup m2"
       "winnerPosition m1 = winnerPosition m2" for k1 m1 k2 m2
  proof -
    from that(3) obtain N where N: "nextMatchup m1 = Some N" by auto
    from initialBracket_edge [OF that(1) N] obtain p
      where e1: "edge m1 = Some (N, p)" and p: "winnerPosition m1 = Some p" by blast
    from initialBracket_edge [OF that(2)] N that(4,5) p
    have e2: "edge m2 = Some (N, p)" by auto
    show ?thesis
      by (rule unique_targets_feeder [OF initialBracket_unique_targets that(1,2) e1 e2])
  qed
  have rounds: "\<exists>n. map_of initialBracket N = Some n \<and> round_num n = round_num m + 1"
    if "map_of initialBracket k = Some m" "nextMatchup m = Some N" for k m N
    using initialBracket_edge [OF that] by blast
  show ?thesis using root uniq rounds by blast
qed

theorem initialBracket_topology_witness:
  "map_of initialBracket ''E1'' = Some
      \<lparr>round_num = 1, matchupId = ''E1'', team1 = Some ''BOS'', team2 = Some ''MIA'',
       nextMatchup = Some ''E5'', winnerPosition = Some Team1\<rparr> \<and>
   (\<exists>n. map_of initialBracket ''E5'' = Some n \<and> round_num n = 2)"
proof -
  let ?e1 = "\<lparr>round_num = 1, matchupId = ''E1'', team1 = Some ''BOS'', team2 = Some ''MIA'',
       nextMatchup = Some ''E5'', winnerPosition = Some Team1\<rparr>"
  have l: "map_of initialBracket ''E1'' = Some ?e1" by (simp add: initialBracket_def)
  have n: "nextMatchup ?e1 = Some ''E5''" by simp
  have "\<exists>n. map_of initialBracket ''E5'' = Some n \<and> round_num n = round_num ?e1 + 1"
    using initialBracket_topology l n by blast
  then show ?thesis using l by (simp add: numeral_2_eq_2)
qed

text \<open>
  \<^bold>\<open>C8\<close> (noninterference per entry). Let matchup \<open>M\<close> feed slot \<open>pos\<close> of matchup
  \<open>N\<close>. Two prediction sets that agree on \<open>M\<close> (the same entry, or none in both) derive
  the same value in slot \<open>pos\<close> of \<open>N\<close>, whatever else they hold.
\<close>

theorem slot_noninterference:
  assumes "distinct (map fst P1)" and "distinct (map fst P2)"
      and "map_of P1 M = map_of P2 M"
      and "map_of initialBracket M = Some m"
      and "nextMatchup m = Some N" and "winnerPosition m = Some pos"
  shows "\<exists>n1 n2. map_of (derive initialBracket P1) N = Some n1 \<and>
                 map_of (derive initialBracket P2) N = Some n2 \<and>
                 slot_of pos n1 = slot_of pos n2"
proof -
  from initialBracket_edge [OF assms(4,5)] assms(6)
  obtain n0 where e: "edge m = Some (N, pos)" and n0: "map_of initialBracket N = Some n0"
    by auto
  from derived_slot [OF initialBracket_unique_targets assms(1,4) e n0]
       derived_slot [OF initialBracket_unique_targets assms(2,4) e n0] assms(3)
  show ?thesis by auto
qed

theorem slot_noninterference_witness:
  "map_of [(''E1'', Some ''MIA''), (''E5'', Some ''MIA'')] ''E5'' = map_of [(''E5'', Some ''MIA'')] ''E5'' \<and>
   (\<exists>n1 n2. map_of (derive initialBracket [(''E1'', Some ''MIA''), (''E5'', Some ''MIA'')]) ''E7'' = Some n1 \<and>
            map_of (derive initialBracket [(''E5'', Some ''MIA'')]) ''E7'' = Some n2 \<and>
            slot_of Team1 n1 = slot_of Team1 n2)"
proof -
  let ?P1 = "[(''E1'', Some ''MIA''), (''E5'', Some ''MIA'')]"
  let ?P2 = "[(''E5'', Some ''MIA'')]"
  let ?e5 = "\<lparr>round_num = 2, matchupId = ''E5'', team1 = None, team2 = None,
       nextMatchup = Some ''E7'', winnerPosition = Some Team1\<rparr>"
  have d1: "distinct (map fst ?P1)" and d2: "distinct (map fst ?P2)" by simp_all
  have ag: "map_of ?P1 ''E5'' = map_of ?P2 ''E5''" by simp
  have l: "map_of initialBracket ''E5'' = Some ?e5" by (simp add: initialBracket_def)
  have n: "nextMatchup ?e5 = Some ''E7''" and p: "winnerPosition ?e5 = Some Team1" by simp_all
  show ?thesis
    using ag slot_noninterference [OF d1 d2 ag l n p] by blast
qed

text \<open>
  \<^bold>\<open>C9\<close> (frame condition). The derived bracket has the template's keys in the
  template's order. Each matchup keeps its round, matchupId, nextMatchup and
  winnerPosition; a matchup that is no template matchup's \<open>nextMatchup\<close> is unchanged
  altogether; and the matchups that are some matchup's \<open>nextMatchup\<close> are those of
  round 2 and later.
\<close>

theorem derive_frame:
  assumes "map_of initialBracket k = Some m"
  shows "map fst (derive initialBracket P) = map fst initialBracket \<and>
         (\<exists>m'. map_of (derive initialBracket P) k = Some m' \<and>
            round_num m' = round_num m \<and> matchupId m' = matchupId m \<and>
            nextMatchup m' = nextMatchup m \<and> winnerPosition m' = winnerPosition m \<and>
            ((\<forall>k0 m0. map_of initialBracket k0 = Some m0 \<longrightarrow> nextMatchup m0 \<noteq> Some k)
               \<longrightarrow> m' = m)) \<and>
         ((\<exists>k0 m0. map_of initialBracket k0 = Some m0 \<and> nextMatchup m0 = Some k)
            \<longleftrightarrow> 2 \<le> round_num m)"
proof -
  let ?m' = "snd (resolve initialBracket P (k, m))"
  have look: "map_of (derive initialBracket P) k = Some ?m'"
    using assms by (simp add: map_of_derive)
  have same: "?m' = m"
    if nt: "\<forall>k0 m0. map_of initialBracket k0 = Some m0 \<longrightarrow> nextMatchup m0 \<noteq> Some k"
  proof -
    have "writes initialBracket P k p = []" for p
    proof -
      have "entry_target initialBracket e \<noteq> Some (k, p)" for e
      proof
        assume "entry_target initialBracket e = Some (k, p)"
        then obtain om where "map_of initialBracket (fst e) = Some om" "edge om = Some (k, p)"
          by (auto dest: entry_target_SomeD)
        then show False using nt by (auto dest: edge_SomeD)
      qed
      then show ?thesis by (simp add: writes_empty_iff)
    qed
    then show ?thesis by (simp add: resolve_no_writes)
  qed
  show ?thesis
    using look same initialBracket_target_iff [OF assms]
    by (simp add: derive_keys resolve_fields)
qed

theorem derive_frame_witness:
  "map_of initialBracket ''E5'' = Some
      \<lparr>round_num = 2, matchupId = ''E5'', team1 = None, team2 = None,
       nextMatchup = Some ''E7'', winnerPosition = Some Team1\<rparr> \<and>
   (\<exists>m'. map_of (derive initialBracket [(''E1'', Some ''MIA'')]) ''E5'' = Some m' \<and>
      round_num m' = 2 \<and> matchupId m' = ''E5'' \<and> nextMatchup m' = Some ''E7'' \<and>
      winnerPosition m' = Some Team1)"
proof -
  let ?e5 = "\<lparr>round_num = 2, matchupId = ''E5'', team1 = None, team2 = None,
       nextMatchup = Some ''E7'', winnerPosition = Some Team1\<rparr>"
  have l: "map_of initialBracket ''E5'' = Some ?e5" by (simp add: initialBracket_def)
  show ?thesis
    using l derive_frame [OF l, of "[(''E1'', Some ''MIA'')]"] by auto
qed

text \<open>
  \<^bold>\<open>C10\<close> (empty winner). For any template, an entry whose value is null or the
  empty string can be removed from a list of prediction entries without changing the
  derived bracket, as an entry with an unknown key can.
\<close>

theorem empty_winner_skipped:
  assumes "v = None \<or> v = Some []"
  shows "derive T (P1 @ (M, v) # P2) = derive T (P1 @ P2)"
proof -
  have "\<not> truthy v" using assms by (auto simp: truthy_def)
  then have "entry_target T (M, v) = None" by (rule entry_target_falsy)
  then show ?thesis by (rule derive_drop_noop)
qed

theorem empty_winner_skipped_witness:
  "derive initialBracket ([(''E2'', Some ''CLE'')] @ (''E1'', Some []) # [(''E3'', None)])
     = derive initialBracket ([(''E2'', Some ''CLE'')] @ [(''E3'', None)])"
proof -
  have e: "Some [] = None \<or> Some [] = Some ([] :: string)" by simp
  show ?thesis
    by (rule empty_winner_skipped [OF e])
qed

end
